theory Spec2Isabelle
  imports Complex_Main "HOL-Library.Word"
begin

section \<open>JavaScript values used by the application\<close>

text \<open>
  A JavaScript string is a sequence of UTF-16 code units. A JavaScript number is only
  stored and copied by the handlers below (no arithmetic is done on coordinates), so it
  is modelled by a real number; the literal \<open>0.01\<close> of the source is the real \<open>0.01\<close>.
\<close>

type_synonym js_string = "16 word list"
type_synonym number = real

definition js :: "string \<Rightarrow> js_string" where
  "js s = map of_char s"

text \<open>
  \<open>String.prototype.trim\<close> removes the WhiteSpace and LineTerminator code points of
  ECMAScript from both ends: TAB, LF, VT, FF, CR, SP, NBSP, U+1680, U+2000 to U+200A,
  U+2028, U+2029, U+202F, U+205F, U+3000 and U+FEFF.
\<close>

definition isWhiteSpace :: "16 word \<Rightarrow> bool" where
  "isWhiteSpace c \<longleftrightarrow>
     c = 0x9 \<or> c = 0xA \<or> c = 0xB \<or> c = 0xC \<or> c = 0xD \<or> c = 0x20 \<or> c = 0xA0 \<or>
     c = 0x1680 \<or> (0x2000 \<le> c \<and> c \<le> 0x200A) \<or> c = 0x2028 \<or> c = 0x2029 \<or>
     c = 0x202F \<or> c = 0x205F \<or> c = 0x3000 \<or> c = 0xFEFF"

definition trim :: "js_string \<Rightarrow> js_string" where
  "trim s = rev (dropWhile isWhiteSpace (rev (dropWhile isWhiteSpace s)))"

text \<open>
  \<open>Date.now()\<close> is an integer number of milliseconds (negative before 1970), far
  below the magnitude where \<open>Number.prototype.toString\<close> switches to exponent
  notation, so \<open>toString\<close> is the decimal numeral with a leading minus sign for a
  negative value.
\<close>

definition digit :: "nat \<Rightarrow> 16 word" where
  "digit d = of_nat (48 + d)"

function decimal :: "nat \<Rightarrow> js_string" where
  "decimal n = (if n < 10 then [digit n] else decimal (n div 10) @ [digit (n mod 10)])"
  by pat_completeness auto
termination
  by (relation "measure (\<lambda>n. n)") auto

declare decimal.simps [simp del]

definition toString :: "int \<Rightarrow> js_string" where
  "toString i = (if i < 0 then 0x2D # decimal (nat (- i)) else decimal (nat i))"

section \<open>Data model (types.ts and the objects of the platform)\<close>

record coordinate =
  latitude :: number
  longitude :: number

record saved_place =
  id_p :: js_string
  latitude_p :: number
  longitude_p :: number
  name_p :: js_string
  description_p :: js_string

text \<open>
  The region handed to \<open>animateToRegion\<close>, and the part of expo-location's
  \<open>LocationObject\<close> that the application reads (\<open>coords.latitude\<close> and
  \<open>coords.longitude\<close>).
\<close>

record region =
  latitude_r :: number
  longitude_r :: number
  latitudeDelta :: number
  longitudeDelta :: number

record location_object =
  coords :: coordinate

datatype permission_status = Granted | Denied | Undetermined

datatype accuracy_level = Lowest | Low | Balanced | High | Highest | BestForNavigation

record watch_options =
  accuracy :: accuracy_level
  timeInterval :: nat
  distanceInterval :: nat

text \<open>
  An alert as \<open>Alert.alert(title, message, buttons)\<close> receives it. The only closure
  attached to a button in the source is the one of the delete prompt, which captures the
  id to delete.
\<close>

datatype callback = RemovePlace js_string

record alert_button =
  text_b :: js_string
  style_b :: js_string
  onPress :: "callback option"

record alert =
  title :: js_string
  message :: js_string
  buttons :: "alert_button list"

section \<open>Application state\<close>

text \<open>
  The state of \<open>useLocation\<close> (\<open>location\<close>, \<open>errorMsg\<close>, whether the permission
  request is still awaited, the position subscription once started), the state hooks of
  \<open>App\<close>, whether \<open>mapRef.current\<close> is attached, and the effects on the outside
  world: the alerts shown and the camera animations requested, in order.
\<close>

record app_state =
  location :: "location_object option"
  errorMsg :: "js_string option"
  permissionPending :: bool
  subscription :: "watch_options option"
  mapRef :: bool
  savedPlaces :: "saved_place list"
  addModalVisible :: bool
  listModalVisible :: bool
  newPlaceName :: js_string
  newPlaceDesc :: js_string
  selectedLocation :: "coordinate option"
  isTracking :: bool
  alerts :: "alert list"
  animations :: "(region \<times> nat) list"

text \<open>
  The state once the component is mounted: every \<open>useState\<close> initial value, the
  permission request issued by the effect and not yet resolved, and \<open>mapRef\<close> attached
  to the \<open>MapView\<close> that \<open>App\<close> renders unconditionally.
\<close>

definition init_state :: app_state where
  "init_state = \<lparr> location = None, errorMsg = None, permissionPending = True,
     subscription = None, mapRef = True, savedPlaces = [], addModalVisible = False,
     listModalVisible = False, newPlaceName = [], newPlaceDesc = [],
     selectedLocation = None, isTracking = True, alerts = [], animations = [] \<rparr>"

section \<open>The location hook (useLocation)\<close>

definition permissionDeniedAlert :: alert where
  "permissionDeniedAlert =
     \<lparr> title = js ''Permission Denied'', message = js ''Cannot access location.'',
       buttons = [] \<rparr>"

text \<open>The body of the effect after the permission request has resolved with \<open>st\<close>.\<close>

definition useLocation_effect :: "permission_status \<Rightarrow> app_state \<Rightarrow> app_state" where
  "useLocation_effect st s =
     (if st \<noteq> Granted then
        s\<lparr> errorMsg := Some (js ''Permission to access location was denied''),
           alerts := alerts s @ [permissionDeniedAlert] \<rparr>
      else
        s\<lparr> subscription :=
             Some \<lparr> accuracy = High, timeInterval = 3000, distanceInterval = 5 \<rparr> \<rparr>)"

text \<open>The callback given to \<open>watchPositionAsync\<close>.\<close>

definition setLocation :: "location_object \<Rightarrow> app_state \<Rightarrow> app_state" where
  "setLocation loc s = s\<lparr> location := Some loc \<rparr>"

section \<open>The handlers of App\<close>

definition handleMapPress :: "coordinate \<Rightarrow> app_state \<Rightarrow> app_state" where
  "handleMapPress c s =
     s\<lparr> selectedLocation := Some c, addModalVisible := True, isTracking := False \<rparr>"

definition recenterMap :: "app_state \<Rightarrow> app_state" where
  "recenterMap s =
     (if mapRef s then
        (case location s of
           None \<Rightarrow> s
         | Some loc \<Rightarrow>
             s\<lparr> animations := animations s @
                   [(\<lparr> latitude_r = latitude (coords loc),
                       longitude_r = longitude (coords loc),
                       latitudeDelta = 0.01, longitudeDelta = 0.01 \<rparr>, 1000)],
                isTracking := True \<rparr>)
      else s)"

definition closeAddModal :: "app_state \<Rightarrow> app_state" where
  "closeAddModal s =
     s\<lparr> addModalVisible := False, selectedLocation := None,
        newPlaceName := [], newPlaceDesc := [] \<rparr>"

definition missingNameAlert :: alert where
  "missingNameAlert =
     \<lparr> title = js ''Missing Name'', message = js ''Please enter a name.'', buttons = [] \<rparr>"

text \<open>
  \<open>selectedLocation || {latitude: location!.coords.latitude, ...}\<close>. With neither a
  selection nor a position the source would dereference \<open>null\<close>; that is \<open>None\<close> here.
\<close>

definition targetLocation :: "app_state \<Rightarrow> coordinate option" where
  "targetLocation s =
     (case selectedLocation s of
        Some c \<Rightarrow> Some c
      | None \<Rightarrow>
          (case location s of
             Some loc \<Rightarrow>
               Some \<lparr> latitude = latitude (coords loc), longitude = longitude (coords loc) \<rparr>
           | None \<Rightarrow> None))"

text \<open>
  \<open>saveCurrentPlace\<close>, with the reading of \<open>Date.now()\<close> as a parameter. The last
  \<open>None\<close> branch is the \<open>null\<close> dereference, which the first guard excludes.
\<close>

definition saveCurrentPlace :: "int \<Rightarrow> app_state \<Rightarrow> app_state" where
  "saveCurrentPlace now s =
     (if selectedLocation s = None \<and> location s = None then s
      else if trim (newPlaceName s) = [] then
        s\<lparr> alerts := alerts s @ [missingNameAlert] \<rparr>
      else
        (case targetLocation s of
           None \<Rightarrow> s
         | Some target \<Rightarrow>
             closeAddModal
               (s\<lparr> savedPlaces := savedPlaces s @
                     [\<lparr> id_p = toString now, latitude_p = latitude target,
                        longitude_p = longitude target, name_p = newPlaceName s,
                        description_p = newPlaceDesc s \<rparr>] \<rparr>)))"

definition goToPlace :: "saved_place \<Rightarrow> app_state \<Rightarrow> app_state" where
  "goToPlace place s =
     (if mapRef s then
        s\<lparr> listModalVisible := False,
           animations := animations s @
             [(\<lparr> latitude_r = latitude_p place, longitude_r = longitude_p place,
                 latitudeDelta = 0.01, longitudeDelta = 0.01 \<rparr>, 1000)],
           isTracking := False \<rparr>
      else s\<lparr> listModalVisible := False \<rparr>)"

definition deletePrompt :: "js_string \<Rightarrow> alert" where
  "deletePrompt i =
     \<lparr> title = js ''Delete Place'',
       message = js ''Are you sure you want to delete this place?'',
       buttons =
         [\<lparr> text_b = js ''Cancel'', style_b = js ''cancel'', onPress = None \<rparr>,
          \<lparr> text_b = js ''Delete'', style_b = js ''destructive'',
            onPress = Some (RemovePlace i) \<rparr>] \<rparr>"

definition deletePlace :: "js_string \<Rightarrow> app_state \<Rightarrow> app_state" where
  "deletePlace i s = s\<lparr> alerts := alerts s @ [deletePrompt i] \<rparr>"

text \<open>Running a button's closure; a button without \<open>onPress\<close> only dismisses the alert.\<close>

fun invoke :: "callback \<Rightarrow> app_state \<Rightarrow> app_state" where
  "invoke (RemovePlace i) s =
     s\<lparr> savedPlaces := filter (\<lambda>p. id_p p \<noteq> i) (savedPlaces s) \<rparr>"

definition pressButton :: "alert_button \<Rightarrow> app_state \<Rightarrow> app_state" where
  "pressButton b s = (case onPress b of None \<Rightarrow> s | Some cb \<Rightarrow> invoke cb s)"

definition editPlace :: "js_string \<Rightarrow> app_state \<Rightarrow> app_state" where
  "editPlace i s =
     (case find (\<lambda>p. id_p p = i) (savedPlaces s) of
        None \<Rightarrow> s
      | Some place \<Rightarrow>
          s\<lparr> newPlaceName := name_p place,
             newPlaceDesc := (if description_p place = [] then [] else description_p place),
             selectedLocation :=
               Some \<lparr> latitude = latitude_p place, longitude = longitude_p place \<rparr>,
             addModalVisible := True,
             savedPlaces := filter (\<lambda>p. id_p p \<noteq> i) (savedPlaces s),
             isTracking := False \<rparr>)"

text \<open>The inline handlers of the rendered tree.\<close>

definition addFab_onPress :: "app_state \<Rightarrow> app_state" where
  "addFab_onPress s = s\<lparr> selectedLocation := None, addModalVisible := True \<rparr>"

definition listFab_onPress :: "app_state \<Rightarrow> app_state" where
  "listFab_onPress s = s\<lparr> listModalVisible := True \<rparr>"

definition closeListModal :: "app_state \<Rightarrow> app_state" where
  "closeListModal s = s\<lparr> listModalVisible := False \<rparr>"

definition setNewPlaceName :: "js_string \<Rightarrow> app_state \<Rightarrow> app_state" where
  "setNewPlaceName n s = s\<lparr> newPlaceName := n \<rparr>"

definition setNewPlaceDesc :: "js_string \<Rightarrow> app_state \<Rightarrow> app_state" where
  "setNewPlaceDesc d s = s\<lparr> newPlaceDesc := d \<rparr>"

section \<open>Events and runs\<close>

text \<open>
  What can happen to the mounted application: the permission request resolves, the
  subscription delivers a sample, or the user acts on a control. \<open>SavePress\<close> carries
  the clock reading at that moment. A control inside a modal exists only while that
  modal is visible, a list row only for an entry of the store, a position sample only
  once the subscription has started, and the permission request resolves once; an event
  on something that does not exist changes nothing. \<open>CancelPress\<close> stands for the
  Cancel button, the close icon and the modal's \<open>onRequestClose\<close>, all bound to
  \<open>closeAddModal\<close>.
\<close>

datatype event =
    PermissionResolved permission_status
  | PositionSample location_object
  | MapPress coordinate
  | RecenterPress
  | AddPress
  | ListPress
  | NameInput js_string
  | DescInput js_string
  | CancelPress
  | SavePress int
  | ListClosePress
  | RowPress nat
  | EditPress nat
  | DeletePress nat
  | AlertPress nat nat

fun step :: "event \<Rightarrow> app_state \<Rightarrow> app_state" where
  "step (PermissionResolved st) s =
     (if permissionPending s then useLocation_effect st (s\<lparr> permissionPending := False \<rparr>)
      else s)"
| "step (PositionSample loc) s = (if subscription s = None then s else setLocation loc s)"
| "step (MapPress c) s = handleMapPress c s"
| "step RecenterPress s = recenterMap s"
| "step AddPress s = addFab_onPress s"
| "step ListPress s = listFab_onPress s"
| "step (NameInput n) s = (if addModalVisible s then setNewPlaceName n s else s)"
| "step (DescInput d) s = (if addModalVisible s then setNewPlaceDesc d s else s)"
| "step CancelPress s = (if addModalVisible s then closeAddModal s else s)"
| "step (SavePress now) s = (if addModalVisible s then saveCurrentPlace now s else s)"
| "step ListClosePress s = (if listModalVisible s then closeListModal s else s)"
| "step (RowPress k) s =
     (if listModalVisible s \<and> k < length (savedPlaces s)
      then goToPlace (savedPlaces s ! k) s else s)"
| "step (EditPress k) s =
     (if listModalVisible s \<and> k < length (savedPlaces s)
      then editPlace (id_p (savedPlaces s ! k)) s else s)"
| "step (DeletePress k) s =
     (if listModalVisible s \<and> k < length (savedPlaces s)
      then deletePlace (id_p (savedPlaces s ! k)) s else s)"
| "step (AlertPress k j) s =
     (if k < length (alerts s) \<and> j < length (buttons (alerts s ! k))
      then pressButton (buttons (alerts s ! k) ! j) s else s)"

fun run :: "event list \<Rightarrow> app_state \<Rightarrow> app_state" where
  "run [] s = s"
| "run (e # es) s = run es (step e s)"

text \<open>The clock readings of the save presses of a run, in order.\<close>

fun saveTimes :: "event list \<Rightarrow> int list" where
  "saveTimes [] = []"
| "saveTimes (SavePress now # es) = now # saveTimes es"
| "saveTimes (e # es) = saveTimes es"

section \<open>Invariants of the location hook\<close>

text \<open>
  Two predicates on states, used to follow the permission request through a run: the
  request is still awaited and nothing has been set or shown for it; or it was refused,
  with the error message set, the permission alert shown once, no subscription and no
  position.
\<close>

definition awaitingPermission :: "app_state \<Rightarrow> bool" where
  "awaitingPermission s \<longleftrightarrow>
     permissionPending s \<and> subscription s = None \<and> location s = None \<and>
     errorMsg s = None \<and> permissionDeniedAlert \<notin> set (alerts s)"

definition locationDenied :: "app_state \<Rightarrow> bool" where
  "locationDenied s \<longleftrightarrow>
     \<not> permissionPending s \<and> subscription s = None \<and> location s = None \<and>
     errorMsg s = Some (js ''Permission to access location was denied'') \<and>
     filter (\<lambda>a. a = permissionDeniedAlert) (alerts s) = [permissionDeniedAlert]"

fun isPermissionResolved :: "event \<Rightarrow> bool" where
  "isPermissionResolved (PermissionResolved st) = True"
| "isPermissionResolved e = False"

section \<open>Example runs\<close>

text \<open>
  Concrete coordinates, places and runs on which the theorems below are exercised. In
  every run defined here each control is used while it is on screen: the map and the
  floating buttons while no modal is shown, the form while the add/edit modal is shown,
  a list row while the list modal is shown and the form is not yet.
\<close>

definition cafe :: coordinate where
  "cafe = \<lparr> latitude = 17.80, longitude = 102.75 \<rparr>"

definition bar :: coordinate where
  "bar = \<lparr> latitude = 17.81, longitude = 102.74 \<rparr>"

definition cafePlace :: saved_place where
  "cafePlace =
     \<lparr> id_p = js ''1700000000000'', latitude_p = 17.80, longitude_p = 102.75,
       name_p = js ''Cafe'', description_p = js ''Coffee'' \<rparr>"

definition barPlace :: saved_place where
  "barPlace =
     \<lparr> id_p = js ''1700000000001'', latitude_p = 17.81, longitude_p = 102.74,
       name_p = js ''Bar'', description_p = [] \<rparr>"

text \<open>The bar, saved at the very clock reading at which the cafe was saved.\<close>

definition barTwin :: saved_place where
  "barTwin =
     \<lparr> id_p = js ''1700000000000'', latitude_p = 17.81, longitude_p = 102.74,
       name_p = js ''Bar'', description_p = [] \<rparr>"

definition firstSave :: "event list" where
  "firstSave =
     [MapPress cafe, NameInput (js ''Cafe''), DescInput (js ''Coffee''),
      SavePress 1700000000000]"

definition laterSaves :: "event list" where
  "laterSaves = firstSave @ [MapPress bar, NameInput (js ''Bar''), SavePress 1700000000001]"

definition sameInstantSaves :: "event list" where
  "sameInstantSaves =
     firstSave @ [MapPress bar, NameInput (js ''Bar''), SavePress 1700000000000]"

definition editOpened :: "event list" where
  "editOpened = firstSave @ [ListPress, EditPress 0]"

definition editThenResave :: "event list" where
  "editThenResave = editOpened @ [SavePress 1700000000000]"


definition located :: "event list" where
  "located = [PermissionResolved Granted, PositionSample \<lparr> coords = bar \<rparr>]"

definition wandered :: "event list" where
  "wandered = [MapPress cafe, CancelPress]"

definition blankForm :: app_state where
  "blankForm = run [AddPress] init_state"

definition blankTap :: app_state where
  "blankTap = run [MapPress cafe, NameInput (js ''   '')] init_state"

definition tapped :: app_state where
  "tapped = run [MapPress cafe, NameInput (js ''Cafe''), DescInput (js ''Coffee'')] init_state"

definition listed :: app_state where
  "listed = run (laterSaves @ [ListPress]) init_state"

definition twins :: app_state where
  "twins = run (sameInstantSaves @ [ListPress]) init_state"

section \<open>Basic facts\<close>

lemmas handler_defs =
  useLocation_effect_def setLocation_def handleMapPress_def recenterMap_def
  closeAddModal_def saveCurrentPlace_def targetLocation_def goToPlace_def deletePlace_def
  pressButton_def editPlace_def addFab_onPress_def listFab_onPress_def closeListModal_def
  setNewPlaceName_def setNewPlaceDesc_def

lemma run_append: "run (xs @ ys) s = run ys (run xs s)"
  by (induction xs arbitrary: s) simp_all

lemma run_snoc: "run (xs @ [e]) s = step e (run xs s)"
  by (simp add: run_append)

lemma saveTimes_append: "saveTimes (xs @ ys) = saveTimes xs @ saveTimes ys"
  by (induction xs rule: saveTimes.induct) simp_all

lemma invoke_eq:
  "invoke cb s =
     s\<lparr> savedPlaces := filter (\<lambda>p. id_p p \<noteq> (case cb of RemovePlace i \<Rightarrow> i)) (savedPlaces s) \<rparr>"
  by (cases cb) simp

subsection \<open>Decimal numerals determine the number\<close>

lemma unat_digit: "d < 10 \<Longrightarrow> unat (digit d) = 48 + d"
proof -
  assume "d < 10"
  then have "48 + d < 2 ^ LENGTH(16)" by simp
  then have "unat (of_nat (48 + d) :: 16 word) = 48 + d"
    by (simp only: unat_of_nat mod_less)
  then show ?thesis by (simp only: digit_def)
qed

lemma digit_inj: "a < 10 \<Longrightarrow> b < 10 \<Longrightarrow> digit a = digit b \<Longrightarrow> a = b"
proof -
  assume a: "a < 10" and b: "b < 10" and eq: "digit a = digit b"
  from eq have "unat (digit a) = unat (digit b)" by (rule arg_cong)
  then have "48 + a = 48 + b" by (simp only: unat_digit [OF a] unat_digit [OF b])
  then show ?thesis by simp
qed

lemma digit_not_minus: "d < 10 \<Longrightarrow> digit d \<noteq> 0x2D"
proof
  assume d: "d < 10" and eq: "digit d = 0x2D"
  from eq have "unat (digit d) = unat (0x2D :: 16 word)" by (rule arg_cong)
  then have "48 + d = 45" by (simp only: unat_digit [OF d]) simp
  then show False by simp
qed

lemma decimal_nonempty: "decimal n \<noteq> []" "[] \<noteq> decimal n"
  by (subst decimal.simps, simp)+

lemma decimal_inj: "decimal n = decimal m \<Longrightarrow> n = m"
proof (induction n arbitrary: m rule: decimal.induct)
  case (1 n)
  show ?case
  proof (cases "n < 10")
    case small: True
    show ?thesis
    proof (cases "m < 10")
      case True
      with small "1.prems" show ?thesis
        by (simp add: decimal.simps [of n] decimal.simps [of m] digit_inj)
    next
      case False
      with small "1.prems" show ?thesis
        by (simp add: decimal.simps [of n] decimal.simps [of m] decimal_nonempty)
    qed
  next
    case big: False
    show ?thesis
    proof (cases "m < 10")
      case True
      with big "1.prems" show ?thesis
        by (simp add: decimal.simps [of n] decimal.simps [of m] decimal_nonempty)
    next
      case False
      with big "1.prems" have hi: "decimal (n div 10) = decimal (m div 10)"
        and lo: "digit (n mod 10) = digit (m mod 10)"
        by (simp_all add: decimal.simps [of n] decimal.simps [of m])
      from "1.IH" [OF big hi] have "n div 10 = m div 10" .
      moreover from lo have "n mod 10 = m mod 10"
        by (rule digit_inj [rotated 2]) simp_all
      ultimately show ?thesis
        by (metis div_mult_mod_eq)
    qed
  qed
qed

lemma decimal_hd: "hd (decimal n) \<noteq> 0x2D"
proof (induction n rule: decimal.induct)
  case (1 n)
  show ?case
  proof (cases "n < 10")
    case True
    then show ?thesis by (simp add: decimal.simps [of n] digit_not_minus)
  next
    case False
    with 1 show ?thesis
      by (simp add: decimal.simps [of n] decimal_nonempty)
  qed
qed

lemma toString_inj: "toString a = toString b \<Longrightarrow> a = b"
proof -
  assume eq: "toString a = toString b"
  have unsigned: "decimal k \<noteq> 0x2D # ks" "0x2D # ks \<noteq> decimal k" for k ks
    using decimal_hd [of k] by (cases "decimal k"; auto)+
  show ?thesis
  proof (cases "a < 0"; cases "b < 0")
    assume "a < 0" "b < 0"
    with eq have "nat (- a) = nat (- b)" by (simp add: toString_def decimal_inj)
    with \<open>a < 0\<close> \<open>b < 0\<close> show ?thesis by simp
  next
    assume "a < 0" "\<not> b < 0"
    with eq unsigned(2) [of "decimal (nat (- a))" "nat b"] show ?thesis
      by (simp add: toString_def)
  next
    assume "\<not> a < 0" "b < 0"
    with eq unsigned(1) [of "nat a" "decimal (nat (- b))"] show ?thesis
      by (simp add: toString_def)
  next
    assume "\<not> a < 0" "\<not> b < 0"
    with eq have "nat a = nat b" by (simp add: toString_def decimal_inj)
    with \<open>\<not> a < 0\<close> \<open>\<not> b < 0\<close> show ?thesis by simp
  qed
qed

subsection \<open>Searching and filtering the store by id\<close>

lemma find_absent: "i \<notin> id_p ` set ps \<Longrightarrow> find (\<lambda>p. id_p p = i) ps = None"
  by (induction ps) auto

lemma filter_absent: "i \<notin> id_p ` set ps \<Longrightarrow> filter (\<lambda>p. id_p p \<noteq> i) ps = ps"
  by (induction ps) auto

lemma find_unique:
  "distinct (map id_p ps) \<Longrightarrow> p \<in> set ps \<Longrightarrow> find (\<lambda>q. id_p q = id_p p) ps = Some p"
  by (induction ps) auto

lemma filter_unique:
  "distinct (map id_p ps) \<Longrightarrow> p \<in> set ps \<Longrightarrow>
     filter (\<lambda>q. id_p q \<noteq> id_p p) ps = remove1 p ps"
  by (induction ps) (auto simp: filter_absent)

lemma filter_only:
  "id_p p = i \<Longrightarrow> i \<notin> id_p ` set (xs @ ys) \<Longrightarrow>
     filter (\<lambda>q. id_p q \<noteq> i) (xs @ p # ys) = xs @ ys"
  by (simp add: filter_absent image_Un)

subsection \<open>The example runs, evaluated\<close>

lemma stamp0: "toString 1700000000000 = js ''1700000000000''"
  by (simp add: toString_def decimal.simps digit_def js_def)

lemma stamp1: "toString 1700000000001 = js ''1700000000001''"
  by (simp add: toString_def decimal.simps digit_def js_def)

lemma stamp2: "toString 1700000000002 = js ''1700000000002''"
  by (simp add: toString_def decimal.simps digit_def js_def)

lemma stamps_differ:
  "js ''1700000000000'' \<noteq> js ''1700000000001''"
  "js ''1700000000001'' \<noteq> js ''1700000000000''"
  "js ''42'' \<noteq> js ''1700000000000''" "js ''42'' \<noteq> js ''1700000000001''"
  "js ''1700000000000'' \<noteq> js ''42''" "js ''1700000000001'' \<noteq> js ''42''"
  "js ''1700000000002'' \<noteq> js ''1700000000000''"
  by (simp_all add: js_def)

lemma trim_examples:
  "trim [] = []" "trim (js ''   '') = []" "trim (js ''Cafe'') \<noteq> []" "trim (js ''Bar'') \<noteq> []"
  by (simp_all add: trim_def isWhiteSpace_def js_def)

lemma text_examples:
  "js ''Coffee'' \<noteq> []" "js ''Cafe'' \<noteq> []"
  "js ''Cafe'' \<noteq> js ''Bar''" "js ''Bar'' \<noteq> js ''Cafe''"
  by (simp_all add: js_def)

lemmas example_defs =
  init_state_def handler_defs stamp0 stamp1 stamp2 stamps_differ trim_examples text_examples
  cafe_def bar_def cafePlace_def barPlace_def barTwin_def

lemma blankForm_value: "blankForm = init_state\<lparr> addModalVisible := True \<rparr>"
  unfolding blankForm_def by (simp add: example_defs)

lemma blankTap_value:
  "blankTap =
     init_state\<lparr> addModalVisible := True, newPlaceName := js ''   '',
       selectedLocation := Some cafe, isTracking := False \<rparr>"
  unfolding blankTap_def by (simp add: example_defs)

lemma tapped_value:
  "tapped =
     init_state\<lparr> addModalVisible := True, newPlaceName := js ''Cafe'',
       newPlaceDesc := js ''Coffee'', selectedLocation := Some cafe, isTracking := False \<rparr>"
  unfolding tapped_def by (simp add: example_defs)

lemma firstSave_value:
  "run firstSave init_state = init_state\<lparr> savedPlaces := [cafePlace], isTracking := False \<rparr>"
  unfolding firstSave_def by (simp add: example_defs)

lemma laterSaves_value:
  "run laterSaves init_state =
     init_state\<lparr> savedPlaces := [cafePlace, barPlace], isTracking := False \<rparr>"
  unfolding laterSaves_def run_append firstSave_value by (simp add: example_defs)

lemma sameInstantSaves_value:
  "run sameInstantSaves init_state =
     init_state\<lparr> savedPlaces := [cafePlace, barTwin], isTracking := False \<rparr>"
  unfolding sameInstantSaves_def run_append firstSave_value by (simp add: example_defs)

lemma editOpened_value:
  "run editOpened init_state =
     init_state\<lparr> addModalVisible := True, listModalVisible := True,
       newPlaceName := js ''Cafe'', newPlaceDesc := js ''Coffee'',
       selectedLocation := Some cafe, isTracking := False \<rparr>"
  unfolding editOpened_def run_append firstSave_value by (simp add: example_defs)

lemma editThenResave_value:
  "run editThenResave init_state =
     init_state\<lparr> savedPlaces := [cafePlace], listModalVisible := True, isTracking := False \<rparr>"
  unfolding editThenResave_def run_append editOpened_value by (simp add: example_defs)


lemma listed_value:
  "listed =
     init_state\<lparr> savedPlaces := [cafePlace, barPlace], listModalVisible := True,
       isTracking := False \<rparr>"
  unfolding listed_def run_append laterSaves_value by (simp add: example_defs)

lemma twins_value:
  "twins =
     init_state\<lparr> savedPlaces := [cafePlace, barTwin], listModalVisible := True,
       isTracking := False \<rparr>"
  unfolding twins_def run_append sameInstantSaves_value by (simp add: example_defs)

lemma saveTimes_examples:
  "saveTimes laterSaves = [1700000000000, 1700000000001]"
  "saveTimes sameInstantSaves = [1700000000000, 1700000000000]"
  by (simp_all add: laterSaves_def sameInstantSaves_def firstSave_def)

section \<open>Saving a place\<close>

text \<open>
  C1, as amended. When the trimmed pending name is empty, \<open>saveCurrentPlace\<close> leaves
  the place store and the visibility of the add/edit modal as they were. If a selected
  coordinate or a live position is available, the only change is that the "Missing Name"
  alert is shown. If neither is available, the first guard of the handler returns before
  the name is looked at: nothing changes and no alert is shown.
\<close>

theorem save_blank_name:
  "trim (newPlaceName s) = [] \<Longrightarrow>
     savedPlaces (saveCurrentPlace now s) = savedPlaces s \<and>
     addModalVisible (saveCurrentPlace now s) = addModalVisible s \<and>
     (selectedLocation s \<noteq> None \<or> location s \<noteq> None \<longrightarrow>
        saveCurrentPlace now s = s\<lparr> alerts := alerts s @ [missingNameAlert] \<rparr>) \<and>
     (selectedLocation s = None \<and> location s = None \<longrightarrow> saveCurrentPlace now s = s)"
  by (simp add: saveCurrentPlace_def)

text \<open>
  A whitespace-only name typed after a map tap: the alert is shown, nothing is stored and
  the modal stays open.
\<close>

theorem save_blank_name_witness:
  "trim (newPlaceName blankTap) = [] \<and> selectedLocation blankTap \<noteq> None \<and>
   alerts (saveCurrentPlace 1700000000000 blankTap) = [missingNameAlert] \<and>
   savedPlaces (saveCurrentPlace 1700000000000 blankTap) = [] \<and>
   addModalVisible (saveCurrentPlace 1700000000000 blankTap)"
  using save_blank_name [of blankTap 1700000000000]
  unfolding blankTap_value by (simp add: example_defs)

text \<open>
  C1 as stated fails. The add button is pressed before any position has arrived and Save
  is pressed on the empty form: no selection, no position, an empty name, the modal open,
  and no alert is shown.
\<close>

theorem save_blank_without_position_counterexample:
  "trim (newPlaceName blankForm) = [] \<and> addModalVisible blankForm \<and>
   selectedLocation blankForm = None \<and> location blankForm = None \<and>
   alerts (step (SavePress 1700000000000) blankForm) = []"
  unfolding blankForm_value by (simp add: example_defs)

text \<open>
  C4. When the trimmed pending name is not empty, \<open>saveCurrentPlace\<close> does one of three
  things. With a selected coordinate, the store gets one new last entry at that
  coordinate, carrying the pending name and description and the clock reading as id; the
  modal is closed and the selection, name and description are cleared; nothing else
  changes, and the earlier entries stay as they were. Without a selection but with a live
  position, the same happens at the live position. With neither, the state is unchanged,
  so in particular no alert is shown.
\<close>

theorem save_named:
  "trim (newPlaceName s) \<noteq> [] \<Longrightarrow>
     (\<forall>c. selectedLocation s = Some c \<longrightarrow>
        saveCurrentPlace now s =
          s\<lparr> savedPlaces := savedPlaces s @
                [\<lparr> id_p = toString now, latitude_p = latitude c, longitude_p = longitude c,
                   name_p = newPlaceName s, description_p = newPlaceDesc s \<rparr>],
             addModalVisible := False, selectedLocation := None,
             newPlaceName := [], newPlaceDesc := [] \<rparr>) \<and>
     (\<forall>loc. selectedLocation s = None \<and> location s = Some loc \<longrightarrow>
        saveCurrentPlace now s =
          s\<lparr> savedPlaces := savedPlaces s @
                [\<lparr> id_p = toString now, latitude_p = latitude (coords loc),
                   longitude_p = longitude (coords loc),
                   name_p = newPlaceName s, description_p = newPlaceDesc s \<rparr>],
             addModalVisible := False, selectedLocation := None,
             newPlaceName := [], newPlaceDesc := [] \<rparr>) \<and>
     (selectedLocation s = None \<and> location s = None \<longrightarrow> saveCurrentPlace now s = s)"
  by (simp add: saveCurrentPlace_def targetLocation_def closeAddModal_def)

text \<open>
  The cafe saved from a map tap; the bar saved from the live position after the add
  button; and a named save with neither selection nor position, which does nothing.
\<close>

theorem save_named_witness:
  "trim (newPlaceName tapped) \<noteq> [] \<and> selectedLocation tapped = Some cafe \<and>
   saveCurrentPlace 1700000000000 tapped =
     init_state\<lparr> savedPlaces := [cafePlace], isTracking := False \<rparr> \<and>
   trim (newPlaceName (run (located @ [AddPress, NameInput (js ''Bar'')]) init_state)) \<noteq> [] \<and>
   selectedLocation (run (located @ [AddPress, NameInput (js ''Bar'')]) init_state) = None \<and>
   location (run (located @ [AddPress, NameInput (js ''Bar'')]) init_state) =
     Some \<lparr> coords = bar \<rparr> \<and>
   savedPlaces (saveCurrentPlace 1700000000001
     (run (located @ [AddPress, NameInput (js ''Bar'')]) init_state)) = [barPlace] \<and>
   trim (newPlaceName (run [AddPress, NameInput (js ''Bar'')] init_state)) \<noteq> [] \<and>
   saveCurrentPlace 1700000000001 (run [AddPress, NameInput (js ''Bar'')] init_state) =
     run [AddPress, NameInput (js ''Bar'')] init_state"
  using save_named [of tapped 1700000000000]
    save_named [of "run (located @ [AddPress, NameInput (js ''Bar'')]) init_state" 1700000000001]
    save_named [of "run [AddPress, NameInput (js ''Bar'')] init_state" 1700000000001]
  unfolding tapped_value located_def by (simp add: example_defs)

section \<open>Identity of saved places\<close>

lemma step_store:
  "savedPlaces (step e s) = savedPlaces s \<or>
   (\<exists>i. savedPlaces (step e s) = filter (\<lambda>p. id_p p \<noteq> i) (savedPlaces s)) \<or>
   (\<exists>now pl. e = SavePress now \<and> id_p pl = toString now \<and>
      savedPlaces (step e s) = savedPlaces s @ [pl])"
proof (cases e)
  case (SavePress now)
  then show ?thesis
    by (simp add: saveCurrentPlace_def closeAddModal_def split: option.splits)
next
  case (EditPress k)
  then show ?thesis
    by (auto simp: editPlace_def split: option.splits)
next
  case (AlertPress k j)
  then show ?thesis
    by (auto simp: pressButton_def invoke_eq split: option.splits)
qed (simp_all add: handler_defs split: option.splits)

text \<open>
  Along a run whose save presses happen at pairwise different clock readings, the ids in
  the store stay pairwise different, and each of them is the numeral of the reading of
  one of those save presses.
\<close>

lemma ids_invariant:
  "distinct (saveTimes evs) \<Longrightarrow>
     distinct (map id_p (savedPlaces (run evs init_state))) \<and>
     id_p ` set (savedPlaces (run evs init_state)) \<subseteq> toString ` set (saveTimes evs)"
proof (induction evs rule: rev_induct)
  case Nil
  show ?case by (simp add: init_state_def)
next
  case (snoc e evs)
  let ?s = "run evs init_state"
  let ?s' = "run (evs @ [e]) init_state"
  from snoc.prems have "distinct (saveTimes evs)"
    by (simp add: saveTimes_append)
  with snoc.IH have d: "distinct (map id_p (savedPlaces ?s))"
    and sub: "id_p ` set (savedPlaces ?s) \<subseteq> toString ` set (saveTimes evs)"
    by simp_all
  have r: "?s' = step e ?s"
    by (rule run_snoc)
  have mono: "set (saveTimes evs) \<subseteq> set (saveTimes (evs @ [e]))"
    by (simp add: saveTimes_append)
  consider
    (same) "savedPlaces ?s' = savedPlaces ?s"
    | (removed) i where "savedPlaces ?s' = filter (\<lambda>p. id_p p \<noteq> i) (savedPlaces ?s)"
    | (added) now pl where "e = SavePress now" "id_p pl = toString now"
        "savedPlaces ?s' = savedPlaces ?s @ [pl]"
    unfolding r using step_store [of e ?s] by blast
  then show ?case
  proof cases
    case same
    with d sub mono show ?thesis
      by (simp only:) blast
  next
    case removed
    from d have "distinct (map id_p (savedPlaces ?s'))"
      by (simp only: removed distinct_map_filter)
    moreover have "id_p ` set (savedPlaces ?s') \<subseteq> id_p ` set (savedPlaces ?s)"
      by (simp only: removed) auto
    ultimately show ?thesis
      using sub mono by blast
  next
    case added
    have times: "saveTimes (evs @ [e]) = saveTimes evs @ [now]"
      by (simp add: saveTimes_append added(1))
    from snoc.prems have unused: "now \<notin> set (saveTimes evs)"
      by (simp add: times)
    have unseen: "toString now \<notin> id_p ` set (savedPlaces ?s)"
    proof
      assume "toString now \<in> id_p ` set (savedPlaces ?s)"
      with sub obtain t where "t \<in> set (saveTimes evs)" "toString now = toString t"
        by auto
      with unused show False
        by (auto dest: toString_inj)
    qed
    from d unseen have "distinct (map id_p (savedPlaces ?s'))"
      by (simp add: added(2,3))
    moreover from sub
    have "id_p ` set (savedPlaces ?s') \<subseteq> toString ` set (saveTimes (evs @ [e]))"
      by (auto simp: added(2,3) times)
    ultimately show ?thesis
      by blast
  qed
qed

text \<open>
  C2, as amended. In every state reached from the start by a run whose save presses
  happen at pairwise different clock readings, the ids of the stored places are pairwise
  distinct. Moreover a save at a clock reading that no save press of the run has used
  creates an id different from the id of every place in the store; taking the run up to
  an edit-open, the place removed by that edit-open is one of them, so the entry saved
  afterwards at a new clock reading does not get the removed entry's id.
\<close>

theorem ids_distinct:
  "distinct (saveTimes evs) \<Longrightarrow>
     distinct (map id_p (savedPlaces (run evs init_state))) \<and>
     (\<forall>p \<in> set (savedPlaces (run evs init_state)).
        \<forall>now. now \<notin> set (saveTimes evs) \<longrightarrow> toString now \<noteq> id_p p)"
proof -
  assume dt: "distinct (saveTimes evs)"
  have "toString now \<noteq> id_p p"
    if "p \<in> set (savedPlaces (run evs init_state))" "now \<notin> set (saveTimes evs)" for p now
  proof
    assume "toString now = id_p p"
    with that(1) ids_invariant [OF dt] obtain t
      where "t \<in> set (saveTimes evs)" "toString now = toString t"
      by auto
    with that(2) show False
      by (auto dest: toString_inj)
  qed
  with ids_invariant [OF dt] show ?thesis
    by blast
qed

text \<open>Two saves one millisecond apart: two different ids.\<close>

theorem ids_distinct_witness:
  "distinct (saveTimes laterSaves) \<and>
   distinct (map id_p (savedPlaces (run laterSaves init_state))) \<and>
   map id_p (savedPlaces (run laterSaves init_state)) =
     [js ''1700000000000'', js ''1700000000001''] \<and>
   cafePlace \<in> set (savedPlaces (run laterSaves init_state)) \<and>
   1700000000002 \<notin> set (saveTimes laterSaves) \<and>
   toString 1700000000002 \<noteq> id_p cafePlace"
  using ids_distinct [of laterSaves]
  unfolding laterSaves_value saveTimes_examples by (simp add: example_defs)

text \<open>
  C2 as stated fails. Two saves within the same millisecond store two different places
  under one id. And a place saved, opened for editing (which empties the store) and saved
  again within that millisecond comes back under the very id it had.
\<close>

theorem ids_distinct_counterexample:
  "savedPlaces (run sameInstantSaves init_state) = [cafePlace, barTwin] \<and>
   cafePlace \<noteq> barTwin \<and> id_p cafePlace = id_p barTwin \<and>
   \<not> distinct (map id_p (savedPlaces (run sameInstantSaves init_state))) \<and>
   map id_p (savedPlaces (run firstSave init_state)) = [js ''1700000000000''] \<and>
   savedPlaces (run editOpened init_state) = [] \<and>
   map id_p (savedPlaces (run editThenResave init_state)) = [js ''1700000000000'']"
  unfolding sameInstantSaves_value firstSave_value editOpened_value editThenResave_value
  by (simp add: example_defs)

section \<open>Editing and deleting\<close>

text \<open>
  C3, as amended. For every place of a store whose ids are pairwise distinct, invoking
  the edit action on its id removes exactly that place (the other entries keep their
  order, the store is one entry shorter and no longer contains the place), puts the
  place's name and description into the form, selects the place's coordinate and opens
  the modal; tracking is switched off and nothing else changes. Cancelling afterwards
  clears the form and the selection and closes the modal, and the store stays without
  the place.
\<close>

theorem edit_open:
  assumes "distinct (map id_p (savedPlaces s))" and "p \<in> set (savedPlaces s)"
  shows "editPlace (id_p p) s =
           s\<lparr> newPlaceName := name_p p, newPlaceDesc := description_p p,
              selectedLocation := Some \<lparr> latitude = latitude_p p, longitude = longitude_p p \<rparr>,
              addModalVisible := True, savedPlaces := remove1 p (savedPlaces s),
              isTracking := False \<rparr> \<and>
         length (savedPlaces (editPlace (id_p p) s)) = length (savedPlaces s) - 1 \<and>
         p \<notin> set (savedPlaces (editPlace (id_p p) s)) \<and>
         closeAddModal (editPlace (id_p p) s) =
           s\<lparr> newPlaceName := [], newPlaceDesc := [], selectedLocation := None,
              addModalVisible := False, savedPlaces := remove1 p (savedPlaces s),
              isTracking := False \<rparr>"
proof -
  from assms(1) have once: "distinct (savedPlaces s)"
    by (simp add: distinct_map)
  have opened: "editPlace (id_p p) s =
           s\<lparr> newPlaceName := name_p p, newPlaceDesc := description_p p,
              selectedLocation := Some \<lparr> latitude = latitude_p p, longitude = longitude_p p \<rparr>,
              addModalVisible := True, savedPlaces := remove1 p (savedPlaces s),
              isTracking := False \<rparr>"
    using assms by (simp add: editPlace_def find_unique filter_unique)
  show ?thesis
    using assms(2) once by (simp add: opened closeAddModal_def length_remove1)
qed

text \<open>The bar is opened for editing from the list of two places, then cancelled.\<close>

theorem edit_open_witness:
  "distinct (map id_p (savedPlaces listed)) \<and> barPlace \<in> set (savedPlaces listed) \<and>
   savedPlaces listed = [cafePlace, barPlace] \<and>
   savedPlaces (editPlace (id_p barPlace) listed) = [cafePlace] \<and>
   newPlaceName (editPlace (id_p barPlace) listed) = js ''Bar'' \<and>
   selectedLocation (editPlace (id_p barPlace) listed) = Some bar \<and>
   addModalVisible (editPlace (id_p barPlace) listed) \<and>
   savedPlaces (closeAddModal (editPlace (id_p barPlace) listed)) = [cafePlace]"
  using edit_open [of listed barPlace]
  unfolding listed_value by (simp add: example_defs)

text \<open>
  C3 as stated fails where two places share an id, which two saves within one
  millisecond produce: \<open>twins\<close> is the state reached by such a run with the list
  opened. Editing the second row (the bar) of such a store removes both
  places, so the store shrinks by two, and the form is filled from the first place with
  that id (the cafe), not from the bar.
\<close>

theorem edit_open_counterexample:
  "savedPlaces twins = [cafePlace, barTwin] \<and> barTwin \<in> set (savedPlaces twins) \<and>
   savedPlaces (editPlace (id_p barTwin) twins) = [] \<and>
   length (savedPlaces (editPlace (id_p barTwin) twins)) \<noteq> length (savedPlaces twins) - 1 \<and>
   newPlaceName (editPlace (id_p barTwin) twins) = name_p cafePlace \<and>
   name_p cafePlace \<noteq> name_p barTwin \<and>
   step (EditPress 1) twins = editPlace (id_p barTwin) twins"
  unfolding twins_value by (simp add: example_defs)

text \<open>
  C10. Invoking the edit action with an id that no stored place has leaves the whole
  state as it was: store, form fields, selection, modal visibility and tracking flag.
\<close>

theorem edit_absent_id:
  "i \<notin> id_p ` set (savedPlaces s) \<Longrightarrow> editPlace i s = s"
  by (simp add: editPlace_def find_absent)

text \<open>No place of the list has the id 42.\<close>

theorem edit_absent_id_witness:
  "js ''42'' \<notin> id_p ` set (savedPlaces listed) \<and> editPlace (js ''42'') listed = listed"
  using edit_absent_id [of "js ''42''" listed]
  unfolding listed_value by (simp add: example_defs)

text \<open>
  C6. \<open>deletePlace\<close> only shows the prompt, with the buttons Cancel and Delete.
  Pressing Cancel, in whatever state the application is by then, changes nothing.
  Pressing Delete keeps, in their order, exactly the entries whose id differs from the
  given one and changes nothing else; hence the state is unchanged when no entry has
  that id, and when one entry has it and no other does, exactly that entry is taken out
  and the entries before and after it stay in place.
\<close>

theorem delete_prompt:
  "deletePlace i s = s\<lparr> alerts := alerts s @ [deletePrompt i] \<rparr> \<and>
   map text_b (buttons (deletePrompt i)) = [js ''Cancel'', js ''Delete''] \<and>
   pressButton (buttons (deletePrompt i) ! 0) s' = s' \<and>
   pressButton (buttons (deletePrompt i) ! 1) s' =
     s'\<lparr> savedPlaces := filter (\<lambda>p. id_p p \<noteq> i) (savedPlaces s') \<rparr> \<and>
   (i \<notin> id_p ` set (savedPlaces s') \<longrightarrow> pressButton (buttons (deletePrompt i) ! 1) s' = s') \<and>
   (\<forall>xs p ys. savedPlaces s' = xs @ p # ys \<and> id_p p = i \<and> i \<notin> id_p ` set (xs @ ys) \<longrightarrow>
      savedPlaces (pressButton (buttons (deletePrompt i) ! 1) s') = xs @ ys)"
proof -
  have "savedPlaces (pressButton (buttons (deletePrompt i) ! 1) s') = xs @ ys"
    if "savedPlaces s' = xs @ p # ys" "id_p p = i" "i \<notin> id_p ` set (xs @ ys)" for xs p ys
    using that filter_only [of p i xs ys] by (simp add: deletePrompt_def pressButton_def)
  then show ?thesis
    by (simp add: deletePlace_def deletePrompt_def pressButton_def filter_absent)
qed

text \<open>
  Deleting the cafe from the list of two places leaves the bar; deleting the id 42, which
  no place has, and pressing Cancel leave the state as it is.
\<close>

theorem delete_prompt_witness:
  "savedPlaces listed = [] @ cafePlace # [barPlace] \<and>
   id_p cafePlace \<notin> id_p ` set ([] @ [barPlace]) \<and>
   savedPlaces (pressButton (buttons (deletePrompt (id_p cafePlace)) ! 1) listed) = [barPlace] \<and>
   js ''42'' \<notin> id_p ` set (savedPlaces listed) \<and>
   pressButton (buttons (deletePrompt (js ''42'')) ! 1) listed = listed \<and>
   pressButton (buttons (deletePrompt (id_p cafePlace)) ! 0) listed = listed"
  using delete_prompt [of "id_p cafePlace" listed listed]
    delete_prompt [of "js ''42''" listed listed]
  unfolding listed_value by (simp add: example_defs deletePrompt_def)

section \<open>The map and the floating buttons\<close>

text \<open>
  C7. In every state, and so in every reachable one, a tap on the map at a coordinate
  switches tracking off, makes that coordinate the selected location and opens the
  add/edit modal, changing nothing else. The tapped coordinate is then the target of
  the save: whatever non-blank name is typed next, saving appends a place at exactly
  that coordinate, also when a live position is known.
\<close>

theorem map_press:
  "handleMapPress c s =
     s\<lparr> selectedLocation := Some c, addModalVisible := True, isTracking := False \<rparr> \<and>
   isTracking (handleMapPress c s) = False \<and>
   selectedLocation (handleMapPress c s) = Some c \<and>
   addModalVisible (handleMapPress c s) = True \<and>
   targetLocation (handleMapPress c s) = Some c \<and>
   (trim n \<noteq> [] \<longrightarrow>
      savedPlaces (saveCurrentPlace now (setNewPlaceName n (handleMapPress c s))) =
        savedPlaces s @
          [\<lparr> id_p = toString now, latitude_p = latitude c, longitude_p = longitude c,
             name_p = n, description_p = newPlaceDesc s \<rparr>])"
  by (simp add: handleMapPress_def targetLocation_def saveCurrentPlace_def
      setNewPlaceName_def closeAddModal_def)

text \<open>A tap on the cafe while the live position is at the bar.\<close>

theorem map_press_witness:
  "trim (js ''Cafe'') \<noteq> [] \<and>
   location (run located init_state) = Some \<lparr> coords = bar \<rparr> \<and>
   isTracking (run located init_state) \<and>
   \<not> isTracking (handleMapPress cafe (run located init_state)) \<and>
   addModalVisible (handleMapPress cafe (run located init_state)) \<and>
   selectedLocation (handleMapPress cafe (run located init_state)) = Some cafe \<and>
   savedPlaces (saveCurrentPlace 1700000000000
     (setNewPlaceName (js ''Cafe'') (handleMapPress cafe (run located init_state)))) =
     [cafePlace \<lparr> description_p := [] \<rparr>]"
  using map_press [of cafe "run located init_state" "js ''Cafe''" 1700000000000]
  unfolding located_def by (simp add: example_defs)






lemma mapRef_step: "mapRef (step e s) = mapRef s"
  by (cases e) (auto simp: handler_defs invoke_eq split: option.splits)

lemma mapRef_invariant: "mapRef (run evs init_state)"
  by (induction evs rule: rev_induct) (simp_all add: init_state_def run_snoc mapRef_step)

text \<open>
  C8. In every state reached from the start, pressing the recenter control when a live
  position is known requests one camera animation to that position, of 1000 ms, and sets
  tracking to true, changing nothing else; when no live position is known it leaves the
  whole state unchanged.
\<close>

theorem recenter:
  "(\<forall>loc. location (run evs init_state) = Some loc \<longrightarrow>
      step RecenterPress (run evs init_state) =
        (run evs init_state)
          \<lparr> animations := animations (run evs init_state) @
               [(\<lparr> latitude_r = latitude (coords loc), longitude_r = longitude (coords loc),
                   latitudeDelta = 0.01, longitudeDelta = 0.01 \<rparr>, 1000)],
            isTracking := True \<rparr>) \<and>
   (location (run evs init_state) = None \<longrightarrow>
      step RecenterPress (run evs init_state) = run evs init_state)"
  using mapRef_invariant [of evs] by (simp add: recenterMap_def)

text \<open>
  After a map tap has switched tracking off, recentering with the live position at the
  bar switches it on again and animates to the bar; without a position nothing happens.
\<close>

theorem recenter_witness:
  "location (run (located @ wandered) init_state) = Some \<lparr> coords = bar \<rparr> \<and>
   \<not> isTracking (run (located @ wandered) init_state) \<and>
   isTracking (step RecenterPress (run (located @ wandered) init_state)) \<and>
   animations (step RecenterPress (run (located @ wandered) init_state)) =
     [(\<lparr> latitude_r = 17.81, longitude_r = 102.74, latitudeDelta = 0.01,
         longitudeDelta = 0.01 \<rparr>, 1000)] \<and>
   location (run wandered init_state) = None \<and>
   \<not> isTracking (run wandered init_state) \<and>
   step RecenterPress (run wandered init_state) = run wandered init_state"
  using recenter [of "located @ wandered"] recenter [of wandered]
  unfolding located_def wandered_def by (simp add: example_defs)

section \<open>Permission denied\<close>

lemma awaiting_step:
  "\<not> isPermissionResolved e \<Longrightarrow> awaitingPermission s \<Longrightarrow> awaitingPermission (step e s)"
  by (cases e)
    (auto simp: awaitingPermission_def handler_defs invoke_eq missingNameAlert_def
      permissionDeniedAlert_def deletePrompt_def js_def split: option.splits)

lemma awaiting_run:
  "\<forall>e \<in> set evs. \<not> isPermissionResolved e \<Longrightarrow> awaitingPermission s \<Longrightarrow>
     awaitingPermission (run evs s)"
  by (induction evs arbitrary: s) (simp_all add: awaiting_step)

lemma denied_step: "locationDenied s \<Longrightarrow> locationDenied (step e s)"
  by (cases e)
    (auto simp: locationDenied_def handler_defs invoke_eq missingNameAlert_def
      permissionDeniedAlert_def deletePrompt_def js_def split: option.splits)

lemma denied_run: "locationDenied s \<Longrightarrow> locationDenied (run evs s)"
  by (induction evs arbitrary: s) (simp_all add: denied_step)

lemma deny_step:
  "st \<noteq> Granted \<Longrightarrow> awaitingPermission s \<Longrightarrow> locationDenied (step (PermissionResolved st) s)"
  by (auto simp: awaitingPermission_def locationDenied_def useLocation_effect_def
      filter_empty_conv)

text \<open>
  C9. Take any run in which the permission request resolves with a status other than
  granted: some events \<open>before\<close> the resolution, the resolution, and any events
  \<open>after\<close> it (user actions, and whatever the platform might still deliver). In the
  state reached, the error message is the permission-denied text, the permission alert
  has been shown exactly once, no position subscription has been started, and the
  exposed position is null.
\<close>

theorem permission_denied:
  assumes "\<forall>e \<in> set before. \<not> isPermissionResolved e" and "st \<noteq> Granted"
  shows "errorMsg (run (before @ PermissionResolved st # after) init_state) =
           Some (js ''Permission to access location was denied'') \<and>
         filter (\<lambda>a. a = permissionDeniedAlert)
           (alerts (run (before @ PermissionResolved st # after) init_state)) =
           [permissionDeniedAlert] \<and>
         subscription (run (before @ PermissionResolved st # after) init_state) = None \<and>
         location (run (before @ PermissionResolved st # after) init_state) = None"
proof -
  have "awaitingPermission init_state"
    by (simp add: awaitingPermission_def init_state_def)
  with assms(1) have "awaitingPermission (run before init_state)"
    by (rule awaiting_run)
  with assms(2) have "locationDenied (step (PermissionResolved st) (run before init_state))"
    by (rule deny_step)
  then have "locationDenied (run (before @ PermissionResolved st # after) init_state)"
    by (simp add: run_append denied_run)
  then show ?thesis
    by (simp add: locationDenied_def)
qed

text \<open>
  The request is denied after the user has tapped the map and cancelled; a grant and a
  position sample arriving later have no effect.
\<close>

theorem permission_denied_witness:
  "filter isPermissionResolved wandered = [] \<and> Denied \<noteq> Granted \<and>
   errorMsg (run (wandered @ PermissionResolved Denied # located) init_state) =
     Some (js ''Permission to access location was denied'') \<and>
   alerts (run (wandered @ PermissionResolved Denied # located) init_state) =
     [permissionDeniedAlert] \<and>
   subscription (run (wandered @ PermissionResolved Denied # located) init_state) = None \<and>
   location (run (wandered @ PermissionResolved Denied # located) init_state) = None"
  using permission_denied [of wandered Denied located]
  unfolding located_def wandered_def by (simp add: example_defs)

end
